theory Spec2Isabelle
  imports Complex_Main "HOL-Library.Sublist"
begin

section \<open>Geometric primitives (payton/math/geometry.py)\<close>

text \<open>
  Scalars are Python and numpy floats; they are modelled as \<^typ>\<open>real\<close>, so the
  arithmetic below is exact and rounding is not part of the model.  A homogeneous point
  or direction (a numpy array read at the indices 0 to 3) is a quadruple, a mesh vertex
  (an array of three floats) a triple.
\<close>

type_synonym vec4 = "real \<times> real \<times> real \<times> real"
type_synonym vec3 = "real \<times> real \<times> real"

fun point_project :: "vec4 \<Rightarrow> vec4 \<Rightarrow> vec4 \<Rightarrow> real" where
  "point_project (p0, p1, p2, p3) (o0, o1, o2, o3) (d0, d1, d2, d3) =
     d0 * (p0 - o0) + d1 * (p1 - o1) + d2 * (p2 - o2)"

text \<open>\<open>v2 - v1\<close> on numpy arrays is the component-wise difference.\<close>

fun vsub :: "vec4 \<Rightarrow> vec4 \<Rightarrow> vec4" where
  "vsub (a0, a1, a2, a3) (b0, b1, b2, b3) = (a0 - b0, a1 - b1, a2 - b2, a3 - b3)"

text \<open>
  \<open>pyrr.vector3.length\<close> is the library's generic vector length: the square root of
  the sum of the squares of all the components of the last axis.
\<close>

fun vlength :: "vec4 \<Rightarrow> real" where
  "vlength (a0, a1, a2, a3) = sqrt (a0\<^sup>2 + a1\<^sup>2 + a2\<^sup>2 + a3\<^sup>2)"

definition distance :: "vec4 \<Rightarrow> vec4 \<Rightarrow> real" where
  "distance v1 v2 = (let v3 = vsub v2 v1 in vlength v3)"

definition distance2 :: "vec4 \<Rightarrow> vec4 \<Rightarrow> real" where
  "distance2 v1 v2 = (let v3 = vsub v2 v1 in (vlength v3)\<^sup>2)"

fun combine :: "vec4 \<Rightarrow> vec4 \<Rightarrow> real \<Rightarrow> real \<Rightarrow> vec4" where
  "combine (a0, a1, a2, a3) (b0, b1, b2, b3) f1 f2 =
     (let x = (f1 * a0) + (f2 * b0);
          y = (f1 * a1) + (f2 * b1);
          z = (f1 * a2) + (f2 * b2);
          w = (f1 * a3) + (f2 * b3)
      in (x, y, z, w))"


section \<open>Collidable objects\<close>

text \<open>
  What the detector reads of a scene object: whether it is an instance of \<open>Sphere\<close>,
  row 3 of its model matrix after \<open>update_matrix()\<close> (the world origin), its bounding
  radius, the flat vertex buffer \<open>_vertices\<close> (three floats per vertex) and the index
  buffer \<open>_indices\<close> (three vertex numbers per triangle).  A \<open>Sphere\<close> is a mesh too
  and has both buffers.
\<close>

record object =
  is_Sphere :: bool
  model_matrix_3 :: vec4
  bounding_radius :: real
  vertices :: "real list"
  indices :: "nat list"

text \<open>
  Objects are compared by identity: the roster and the pair cache hold references, and
  the scene maps each reference to the object's current attributes.
\<close>

type_synonym ref = nat
type_synonym scene = "ref \<Rightarrow> object"

datatype error = IndexError | TypeError

text \<open>Reading \<open>xs[i]\<close> raises \<open>IndexError\<close> out of range.\<close>

definition getitem :: "'a list \<Rightarrow> nat \<Rightarrow> error + 'a" where
  "getitem xs i = (if i < length xs then Inr (xs ! i) else Inl IndexError)"

definition bindE :: "error + 'a \<Rightarrow> ('a \<Rightarrow> error + 'b) \<Rightarrow> error + 'b" where
  "bindE m f = (case m of Inl e \<Rightarrow> Inl e | Inr x \<Rightarrow> f x)"

text \<open>
  \<open>line_triangle_intersect\<close> is imported from \<open>payton.math.geometry\<close>, whose
  source does not define it; it is a parameter \<open>lti\<close> of everything below, called as
  \<open>lti p0 p1 t0 t1 t2\<close>.
\<close>

type_synonym intersect = "vec3 \<Rightarrow> vec3 \<Rightarrow> vec3 \<Rightarrow> vec3 \<Rightarrow> vec3 \<Rightarrow> bool"

section \<open>The collision detector (payton/scene/collision.py)\<close>

definition dist_objs :: "object \<Rightarrow> object \<Rightarrow> real" where
  "dist_objs obj1 obj2 =
     (let p1 = model_matrix_3 obj1; p2 = model_matrix_3 obj2 in distance p1 p2)"

definition bounding_sphere_collision :: "object \<Rightarrow> object \<Rightarrow> bool" where
  "bounding_sphere_collision obj1 obj2 =
     (let dist = dist_objs obj1 obj2;
          total_radius = bounding_radius obj1 + bounding_radius obj2
      in dist \<le> total_radius)"

definition sphere_in_sphere_collision :: "object \<Rightarrow> object \<Rightarrow> bool" where
  "sphere_in_sphere_collision obj1 obj2 =
     (let dist = dist_objs obj1 obj2 in
      if bounding_radius obj1 > dist + bounding_radius obj2 then True
      else if bounding_radius obj2 > dist + bounding_radius obj1 then True
      else False)"

text \<open>
  The three reads \<open>[vs[i * 3], vs[i * 3 + 1], vs[i * 3 + 2]]\<close> that build one vertex,
  in the order of the source.
\<close>

definition vertex_at :: "real list \<Rightarrow> nat \<Rightarrow> error + vec3" where
  "vertex_at vs i =
     bindE (getitem vs (i * 3)) (\<lambda>x.
     bindE (getitem vs (i * 3 + 1)) (\<lambda>y.
     bindE (getitem vs (i * 3 + 2)) (\<lambda>z. Inr (x, y, z))))"

text \<open>
  The inner loop of \<open>_mesh_collision\<close> over \<open>j\<close>, for the triangle \<open>(p1, p2, p3)\<close> of
  \<open>obj1\<close>.  \<open>Inr True\<close> is the \<open>return True\<close> of a positive segment test; \<open>Inr False\<close>
  means that the loop ran out and the outer loop goes on.  The third index of the
  triangle is read from \<open>obj1._indices\<close>, as line 93 of the source does.
\<close>

fun mesh_inner :: "intersect \<Rightarrow> object \<Rightarrow> object \<Rightarrow> vec3 \<Rightarrow> vec3 \<Rightarrow> vec3 \<Rightarrow> nat list \<Rightarrow> error + bool" where
  "mesh_inner lti obj1 obj2 p1 p2 p3 [] = Inr False"
| "mesh_inner lti obj1 obj2 p1 p2 p3 (j # js) =
     (let jx = j * 3 in
      bindE (getitem (indices obj2) jx) (\<lambda>i1.
      bindE (getitem (indices obj2) (jx + 1)) (\<lambda>i2.
      bindE (getitem (indices obj1) (jx + 2)) (\<lambda>i3.
      bindE (vertex_at (vertices obj2) i1) (\<lambda>q1.
      bindE (vertex_at (vertices obj2) i2) (\<lambda>q2.
      bindE (vertex_at (vertices obj2) i3) (\<lambda>q3.
        if lti p1 p2 q1 q2 q3 then Inr True
        else if lti p1 p3 q1 q2 q3 then Inr True
        else if lti p2 p3 q1 q2 q3 then Inr True
        else if lti q1 q2 p1 p2 p3 then Inr True
        else if lti q1 q3 p1 p2 p3 then Inr True
        else if lti q2 q3 p1 p2 p3 then Inr True
        else mesh_inner lti obj1 obj2 p1 p2 p3 js)))))))"

text \<open>The outer loop over \<open>i\<close>.\<close>

fun mesh_outer :: "intersect \<Rightarrow> object \<Rightarrow> object \<Rightarrow> nat list \<Rightarrow> error + bool" where
  "mesh_outer lti obj1 obj2 [] = Inr False"
| "mesh_outer lti obj1 obj2 (i # is) =
     (let ix = i * 3 in
      bindE (getitem (indices obj1) ix) (\<lambda>i1.
      bindE (getitem (indices obj1) (ix + 1)) (\<lambda>i2.
      bindE (getitem (indices obj1) (ix + 2)) (\<lambda>i3.
      bindE (vertex_at (vertices obj1) i1) (\<lambda>p1.
      bindE (vertex_at (vertices obj1) i2) (\<lambda>p2.
      bindE (vertex_at (vertices obj1) i3) (\<lambda>p3.
      bindE (mesh_inner lti obj1 obj2 p1 p2 p3 [0..<length (indices obj2) div 3]) (\<lambda>hit.
        if hit then Inr True else mesh_outer lti obj1 obj2 is))))))))"

definition mesh_collision :: "intersect \<Rightarrow> object \<Rightarrow> object \<Rightarrow> error + bool" where
  "mesh_collision lti obj1 obj2 = mesh_outer lti obj1 obj2 [0..<length (indices obj1) div 3]"

definition test :: "intersect \<Rightarrow> object \<Rightarrow> object \<Rightarrow> error + bool" where
  "test lti obj1 obj2 =
     (if is_Sphere obj1 \<and> is_Sphere obj2 then Inr (bounding_sphere_collision obj1 obj2)
      else if \<not> bounding_sphere_collision obj1 obj2 then Inr False
      else if sphere_in_sphere_collision obj1 obj2 then Inr True
      else mesh_collision lti obj1 obj2)"

subsection \<open>Detector state\<close>

text \<open>
  The callback is whatever value the caller passed (\<open>None\<close> when it passed nothing);
  the detector distinguishes only whether \<open>callable\<close> holds of it.  What a callback
  does when it runs is outside the detector: an invocation is recorded as the pair of
  arguments it receives.
\<close>

datatype callback = NotCallable | Callable

type_synonym pair = "ref \<times> ref"

record detector =
  objects :: "ref list"
  callback :: callback
  pairs :: "pair list"

type_synonym call = "detector \<times> pair list"

text \<open>
  \<open>__init__\<close>: a callback that is not callable is logged with \<open>logging.error\<close>; no
  branch raises.  The result holds the new detector and the lines logged.
\<close>

definition init :: "ref list \<Rightarrow> callback \<Rightarrow> error + detector \<times> string list" where
  "init objs cb =
     Inr (\<lparr>objects = objs, callback = cb, pairs = []\<rparr>,
          (if cb \<noteq> Callable then [''callback should be a callable''] else []))"

definition add_object :: "detector \<Rightarrow> ref \<Rightarrow> detector" where
  "add_object d obj = d\<lparr>objects := objects d @ [obj]\<rparr>"

text \<open>\<open>list.remove\<close> deletes the first equal element; it is called only after \<open>in\<close>.\<close>

definition resolve :: "detector \<Rightarrow> ref \<Rightarrow> ref \<Rightarrow> detector" where
  "resolve d obj1 obj2 =
     (let pair = (obj1, obj2);
          pair2 = (obj2, obj1);
          ps = pairs d;
          ps = (if pair \<in> set ps then remove1 pair ps else ps);
          ps = (if pair2 \<in> set ps then remove1 pair2 ps else ps)
      in d\<lparr>pairs := ps\<rparr>)"

text \<open>
  The loops of \<open>check\<close>.  The loop state is the pair cache, which the source appends to
  in place, together with the sequence of calls to \<open>_test\<close> made so far (kept only to
  state which pairs a pass evaluates).  An exception of \<open>_test\<close> ends the pass and
  leaves the cache as it stands.  The reads \<open>objects[i]\<close> and \<open>objects[i+j+1]\<close> are
  within range for every \<open>i\<close> and \<open>j\<close> the loops reach.
\<close>

type_synonym pass_state = "pair list \<times> pair list"

fun check_inner :: "intersect \<Rightarrow> scene \<Rightarrow> ref list \<Rightarrow> nat \<Rightarrow> nat list \<Rightarrow> pass_state \<Rightarrow> pass_state \<times> error option" where
  "check_inner lti sc objs i [] st = (st, None)"
| "check_inner lti sc objs i (j # js) (ps, tr) =
     (let obj1 = objs ! i;
          obj2 = objs ! (i + j + 1);
          pair = (obj1, obj2);
          pair2 = (obj2, obj1)
      in if pair \<notin> set ps \<and> pair2 \<notin> set ps then
           (case test lti (sc obj1) (sc obj2) of
              Inl e \<Rightarrow> ((ps, tr @ [pair]), Some e)
            | Inr res \<Rightarrow>
                check_inner lti sc objs i js
                  ((if res then ps @ [(obj1, obj2)] else ps), tr @ [pair]))
         else check_inner lti sc objs i js (ps, tr))"

fun check_outer :: "intersect \<Rightarrow> scene \<Rightarrow> ref list \<Rightarrow> nat list \<Rightarrow> pass_state \<Rightarrow> pass_state \<times> error option" where
  "check_outer lti sc objs [] st = (st, None)"
| "check_outer lti sc objs (i # is) st =
     (case check_inner lti sc objs i [0..<length objs - i - 1] st of
        (st', Some e) \<Rightarrow> (st', Some e)
      | (st', None) \<Rightarrow> check_outer lti sc objs is st')"

text \<open>
  \<open>check\<close> returns the detector after the pass, the calls to \<open>_test\<close> it made, and
  either the exception that ended it or the callback invocations it made.
  \<open>range(len(self.objects) - 1)\<close> is empty for an empty roster, as the truncating
  subtraction gives.  Calling a value that is not callable raises \<open>TypeError\<close>.
\<close>

definition check :: "intersect \<Rightarrow> scene \<Rightarrow> detector \<Rightarrow> detector \<times> pair list \<times> (error + call list)" where
  "check lti sc d =
     (case check_outer lti sc (objects d) [0..<length (objects d) - 1] (pairs d, []) of
        ((ps, tr), Some e) \<Rightarrow> (d\<lparr>pairs := ps\<rparr>, tr, Inl e)
      | ((ps, tr), None) \<Rightarrow>
          (let d' = d\<lparr>pairs := ps\<rparr> in
           case callback d of
             NotCallable \<Rightarrow> (d', tr, Inl TypeError)
           | Callable \<Rightarrow> (d', tr, Inr [(d', ps)])))"

section \<open>The detection pass as one sweep over the unordered pairs\<close>

text \<open>
  The spec describes a detection pass in these words: for every unordered pair drawn from
  the roster (all \<open>C(n,2)\<close> combinations) that is not already present in the pair
  cache, run the classification and, if positive, insert the pair.  The definitions of
  this section follow those words; they are compared with the loops of \<open>check\<close> below.
\<close>

text \<open>
  The classification of a pair of references in a scene.
\<close>

fun test_pair :: "intersect \<Rightarrow> scene \<Rightarrow> pair \<Rightarrow> error + bool" where
  "test_pair lti sc (obj1, obj2) = test lti (sc obj1) (sc obj2)"

text \<open>
  The pairs of roster positions \<open>i < j\<close>, in the order of the two loops, and the
  pairs of objects found there.
\<close>

definition position_pairs :: "nat \<Rightarrow> (nat \<times> nat) list" where
  "position_pairs n = concat (map (\<lambda>i. map (\<lambda>j. (i, j)) [Suc i..<n]) [0..<n])"

definition roster_pairs :: "ref list \<Rightarrow> pair list" where
  "roster_pairs objs = map (\<lambda>(i, j). (objs ! i, objs ! j)) (position_pairs (length objs))"

text \<open>
  One sweep over a list of pairs: a pair found in the cache in either order is skipped;
  any other pair is classified (and recorded as evaluated) and appended to the cache
  when the result is positive; an exception ends the sweep.
\<close>

fun pass_over :: "(pair \<Rightarrow> error + bool) \<Rightarrow> pair list \<Rightarrow> pass_state \<Rightarrow> pass_state \<times> error option" where
  "pass_over t [] st = (st, None)"
| "pass_over t (p # prs) (ps, tr) =
     (if p \<in> set ps \<or> prod.swap p \<in> set ps then pass_over t prs (ps, tr)
      else case t p of
             Inl e \<Rightarrow> ((ps, tr @ [p]), Some e)
           | Inr res \<Rightarrow> pass_over t prs ((if res then ps @ [p] else ps), tr @ [p]))"

section \<open>The pair cache as a set of unordered pairs\<close>

text \<open>
  The unordered pair that a cache entry stands for, and the invariant of the cache: no
  two entries stand for the same unordered pair.
\<close>

definition unordered :: "pair \<Rightarrow> ref set" where
  "unordered p = {fst p, snd p}"

definition pair_cache_inv :: "pair list \<Rightarrow> bool" where
  "pair_cache_inv ps \<longleftrightarrow> distinct (map unordered ps)"

text \<open>
  The detector states that the operations can produce: construction, then any sequence
  of \<open>add_object\<close>, \<open>resolve\<close> and \<open>check\<close>, each pass with whatever scene and
  segment test are current.
\<close>

inductive reachable :: "detector \<Rightarrow> bool" where
  by_init: "init objs cb = Inr (d, logged) \<Longrightarrow> reachable d"
| by_add_object: "reachable d \<Longrightarrow> reachable (add_object d obj)"
| by_resolve: "reachable d \<Longrightarrow> reachable (resolve d obj1 obj2)"
| by_check: "reachable d \<Longrightarrow> reachable (fst (check lti sc d))"

section \<open>Well-formed meshes\<close>

text \<open>
  A mesh is well formed when both buffers hold whole triples and every index names a
  vertex of the vertex buffer.
\<close>

definition well_formed :: "object \<Rightarrow> bool" where
  "well_formed obj \<longleftrightarrow>
     length (vertices obj) mod 3 = 0 \<and> length (indices obj) mod 3 = 0 \<and>
     list_all (\<lambda>i. i < length (vertices obj) div 3) (indices obj)"

text \<open>
  The \<open>i\<close>-th triangle of an object, read from its own index and vertex buffers as
  lines 72 to 84 of the source read the triangle of \<open>obj1\<close>.
\<close>

definition triangle_at :: "object \<Rightarrow> nat \<Rightarrow> error + vec3 \<times> vec3 \<times> vec3" where
  "triangle_at obj i =
     (let ix = i * 3 in
      bindE (getitem (indices obj) ix) (\<lambda>i1.
      bindE (getitem (indices obj) (ix + 1)) (\<lambda>i2.
      bindE (getitem (indices obj) (ix + 2)) (\<lambda>i3.
      bindE (vertex_at (vertices obj) i1) (\<lambda>p1.
      bindE (vertex_at (vertices obj) i2) (\<lambda>p2.
      bindE (vertex_at (vertices obj) i3) (\<lambda>p3. Inr (p1, p2, p3))))))))"

section \<open>Concrete objects and scenes\<close>

text \<open>
  Two meshes 100 apart with bounding radius 1 each.  Their buffers are malformed on
  purpose (a triangle whose vertices do not exist), so that any read of them raises.
\<close>

definition far_a :: object where
  "far_a = \<lparr>is_Sphere = False, model_matrix_3 = (0, 0, 0, 1), bounding_radius = 1,
            vertices = [], indices = [7, 7, 7]\<rparr>"

definition far_b :: object where
  "far_b = \<lparr>is_Sphere = False, model_matrix_3 = (100, 0, 0, 1), bounding_radius = 1,
            vertices = [], indices = [7, 7, 7]\<rparr>"

text \<open>A mesh of bounding radius 10 at the origin and one of radius 1 at distance 1.\<close>

definition big_a :: object where
  "big_a = \<lparr>is_Sphere = False, model_matrix_3 = (0, 0, 0, 1), bounding_radius = 10,
            vertices = [], indices = [7, 7, 7]\<rparr>"

definition small_b :: object where
  "small_b = \<lparr>is_Sphere = False, model_matrix_3 = (1, 0, 0, 1), bounding_radius = 1,
              vertices = [], indices = [7, 7, 7]\<rparr>"

text \<open>
  Three spheres of radius 1 on the x axis, at 0, 1 and 10, under the references 10, 11
  and 12.
\<close>

definition sphere_at :: "real \<Rightarrow> object" where
  "sphere_at x = \<lparr>is_Sphere = True, model_matrix_3 = (x, 0, 0, 1), bounding_radius = 1,
                  vertices = [], indices = [7, 7, 7]\<rparr>"

definition three_spheres :: scene where
  "three_spheres r =
     (if r = 10 then sphere_at 0 else if r = 11 then sphere_at 1 else sphere_at 10)"

text \<open>
  Two well-formed meshes of one triangle each, both at the origin with bounding radius 8.
  The triangle of \<open>tri_a\<close> is (0,0,0), (4,0,0), (0,0,8): it uses the vertices 0, 1
  and 3 of four.  The triangle of \<open>tri_b\<close> is (1,-4,4), (1,4,4), (-4,0,4); its edge
  from (1,-4,4) to (1,4,4) passes through the interior of the triangle of \<open>tri_a\<close> at
  (1,0,4).
\<close>

definition tri_a :: object where
  "tri_a = \<lparr>is_Sphere = False, model_matrix_3 = (0, 0, 0, 1), bounding_radius = 8,
            vertices = [0, 0, 0,  4, 0, 0,  0, 4, 0,  0, 0, 8], indices = [0, 1, 3]\<rparr>"

definition tri_b :: object where
  "tri_b = \<lparr>is_Sphere = False, model_matrix_3 = (0, 0, 0, 1), bounding_radius = 8,
            vertices = [1, -4, 4,  1, 4, 4,  -4, 0, 4], indices = [0, 1, 2]\<rparr>"

text \<open>
  A detector tracking the three spheres, and a segment test that never reports an
  intersection.
\<close>

definition roster3 :: detector where
  "roster3 = \<lparr>objects = [10, 11, 12], callback = Callable, pairs = []\<rparr>"

definition never :: intersect where
  "never p0 p1 t0 t1 t2 = False"

section \<open>Properties of the geometric primitives\<close>

lemma distance_eq:
  "distance (a0, a1, a2, a3) (b0, b1, b2, b3) =
     sqrt ((b0 - a0)\<^sup>2 + (b1 - a1)\<^sup>2 + (b2 - a2)\<^sup>2 + (b3 - a3)\<^sup>2)"
  by (simp add: distance_def)

lemma distance2_eq:
  "distance2 (a0, a1, a2, a3) (b0, b1, b2, b3) =
     (b0 - a0)\<^sup>2 + (b1 - a1)\<^sup>2 + (b2 - a2)\<^sup>2 + (b3 - a3)\<^sup>2"
  by (simp add: distance2_def)


text \<open>
  For a unit direction, the point the test measures from is the point of the forward ray
  nearest to the centre.
\<close>

lemma closest_point_on_forward_ray:
  assumes unit: "v0\<^sup>2 + v1\<^sup>2 + v2\<^sup>2 = 1" and dir: "v3 = 0" and fwd: "0 \<le> u"
  shows "distance2 (c0, c1, c2, c3) (combine (s0, s1, s2, s3) (v0, v1, v2, v3) 1
            (max 0 (point_project (c0, c1, c2, c3) (s0, s1, s2, s3) (v0, v1, v2, v3))))
         \<le> distance2 (c0, c1, c2, c3) (combine (s0, s1, s2, s3) (v0, v1, v2, v3) 1 u)"
proof -
  define p where "p = v0 * (c0 - s0) + v1 * (c1 - s1) + v2 * (c2 - s2)"
  define k where "k = (s0 - c0)\<^sup>2 + (s1 - c1)\<^sup>2 + (s2 - c2)\<^sup>2 + (s3 - c3)\<^sup>2"
  have f: "distance2 (c0, c1, c2, c3) (combine (s0, s1, s2, s3) (v0, v1, v2, v3) 1 w)
            = k - 2 * w * p + w\<^sup>2 * (v0\<^sup>2 + v1\<^sup>2 + v2\<^sup>2)" for w
    by (simp add: distance2_eq dir p_def k_def power2_eq_square algebra_simps)
  have "k - 2 * max 0 p * p + (max 0 p)\<^sup>2 \<le> k - 2 * u * p + u\<^sup>2"
  proof (cases "0 \<le> p")
    case True
    have "0 \<le> (u - p)\<^sup>2" by simp
    then have "- p\<^sup>2 \<le> - 2 * u * p + u\<^sup>2" by (simp add: power2_eq_square algebra_simps)
    with True show ?thesis by (simp add: max_def power2_eq_square)
  next
    case False
    then have "u * p \<le> 0" using fwd by (simp add: mult_nonneg_nonpos)
    then have "2 * u * p \<le> 0" by (simp add: mult.commute)
    moreover have "0 \<le> u\<^sup>2" by simp
    ultimately have "0 \<le> - 2 * u * p + u\<^sup>2" by linarith
    with False show ?thesis by (simp add: max_def)
  qed
  moreover have "point_project (c0, c1, c2, c3) (s0, s1, s2, s3) (v0, v1, v2, v3) = p"
    by (simp add: p_def)
  ultimately show ?thesis unfolding f unit by simp
qed



section \<open>Properties of the classification\<close>

lemma bindE_simps:
  "bindE (Inl e) f = Inl e"
  "bindE (Inr x) f = f x"
  by (simp_all add: bindE_def)


lemma far_dist: "dist_objs far_a far_b = 100"
  by (simp add: dist_objs_def far_a_def far_b_def distance_def)

lemma far_mesh_raises: "mesh_collision lti far_a far_b = Inl IndexError"
  by (simp add: mesh_collision_def far_a_def far_b_def getitem_def bindE_def vertex_at_def)

lemma nested_dist: "dist_objs big_a small_b = 1"
  by (simp add: dist_objs_def big_a_def small_b_def distance_def)

lemma nested_mesh_raises: "mesh_collision lti big_a small_b = Inl IndexError"
  by (simp add: mesh_collision_def big_a_def small_b_def getitem_def bindE_def vertex_at_def)

lemma sphere_at_dist: "dist_objs (sphere_at x) (sphere_at y) = \<bar>y - x\<bar>"
  by (simp add: dist_objs_def sphere_at_def distance_def)

lemma sphere_at_collision: "bounding_sphere_collision (sphere_at x) (sphere_at y) \<longleftrightarrow> \<bar>y - x\<bar> \<le> 2"
  by (simp add: bounding_sphere_collision_def sphere_at_dist) (simp add: sphere_at_def)

lemma sphere_at_test: "test lti (sphere_at x) (sphere_at y) = Inr (\<bar>y - x\<bar> \<le> 2)"
  by (simp add: test_def sphere_at_collision) (simp add: sphere_at_def)

text \<open>
  C6.  The broad phase is positive exactly when the distance between the two origins is at
  most the sum of the bounding radii.  When it is negative the classification is false
  whatever the vertex and index buffers hold and whatever the segment test answers: the
  mesh data is not read.
\<close>

theorem broad_phase:
  "(bounding_sphere_collision a b \<longleftrightarrow>
      distance (model_matrix_3 a) (model_matrix_3 b) \<le> bounding_radius a + bounding_radius b) \<and>
   (\<not> bounding_sphere_collision a b \<longrightarrow>
      test lti (a\<lparr>vertices := va, indices := ia\<rparr>) (b\<lparr>vertices := vb, indices := ib\<rparr>) = Inr False)"
  by (simp add: Let_def test_def bounding_sphere_collision_def dist_objs_def)

text \<open>
  Origins (0,0,0) and (100,0,0), radii 1: the classification is false although reading
  the meshes would raise.
\<close>

theorem broad_phase_witness:
  "\<not> bounding_sphere_collision far_a far_b \<and>
   test (\<lambda>p0 p1 t0 t1 t2. True) far_a far_b = Inr False \<and>
   mesh_collision (\<lambda>p0 p1 t0 t1 t2. True) far_a far_b = Inl IndexError"
proof -
  have n: "\<not> bounding_sphere_collision far_a far_b"
    by (simp add: bounding_sphere_collision_def far_dist) (simp add: far_a_def far_b_def)
  from broad_phase [where a = far_a and b = far_b and lti = "\<lambda>p0 p1 t0 t1 t2. True"
      and va = "vertices far_a" and ia = "indices far_a" and vb = "vertices far_b"
      and ib = "indices far_b"] n far_mesh_raises
  show ?thesis by simp
qed

text \<open>
  C7.  When both objects are spheres the classification is the result of the broad-phase
  test alone, whatever the buffers hold and whatever the segment test answers: neither
  the containment test nor the mesh test contributes.
\<close>

theorem sphere_shortcut:
  assumes "is_Sphere a" and "is_Sphere b"
  shows "test lti a b = Inr (bounding_sphere_collision a b) \<and>
         test lti' (a\<lparr>vertices := va, indices := ia\<rparr>) (b\<lparr>vertices := vb, indices := ib\<rparr>) =
           Inr (bounding_sphere_collision a b)"
  using assms by (simp add: Let_def test_def bounding_sphere_collision_def dist_objs_def)

theorem sphere_shortcut_witness:
  "is_Sphere (sphere_at 0) \<and> is_Sphere (sphere_at 1) \<and> is_Sphere (sphere_at 10) \<and>
   test (\<lambda>p0 p1 t0 t1 t2. False) (sphere_at 0) (sphere_at 1) = Inr True \<and>
   test (\<lambda>p0 p1 t0 t1 t2. True) (sphere_at 0) (sphere_at 10) = Inr False"
proof -
  have s: "is_Sphere (sphere_at x)" for x by (simp add: sphere_at_def)
  have "test (\<lambda>p0 p1 t0 t1 t2. False) (sphere_at 0) (sphere_at 1) = Inr True"
    using sphere_shortcut [OF s s, of "\<lambda>p0 p1 t0 t1 t2. False" 0 1] by (simp add: sphere_at_collision)
  moreover have "test (\<lambda>p0 p1 t0 t1 t2. True) (sphere_at 0) (sphere_at 10) = Inr False"
    using sphere_shortcut [OF s s, of "\<lambda>p0 p1 t0 t1 t2. True" 0 10] by (simp add: sphere_at_collision)
  ultimately show ?thesis using s by simp
qed

text \<open>
  C8.  For a pair that is not two spheres and has passed the broad phase, if either
  bounding radius exceeds the distance plus the other radius, the classification is true
  whatever the buffers hold and whatever the segment test answers: the mesh test is not
  run.  In particular a pair at distance 1 with radii 10 and 1 is classified as
  colliding.
\<close>

theorem containment_phase:
  "(\<not> (is_Sphere a \<and> is_Sphere b) \<and> bounding_sphere_collision a b \<and>
      (bounding_radius a > dist_objs a b + bounding_radius b \<or>
       bounding_radius b > dist_objs a b + bounding_radius a) \<longrightarrow>
      test lti (a\<lparr>vertices := va, indices := ia\<rparr>) (b\<lparr>vertices := vb, indices := ib\<rparr>) = Inr True) \<and>
   (dist_objs a b = 1 \<and> bounding_radius a = 10 \<and> bounding_radius b = 1 \<longrightarrow>
      test lti a b = Inr True)"
  by (auto simp add: Let_def test_def bounding_sphere_collision_def sphere_in_sphere_collision_def
        dist_objs_def)

text \<open>
  The nested pair, in both orders: classified as colliding although reading the meshes
  would raise.
\<close>

theorem containment_phase_witness:
  "\<not> (is_Sphere big_a \<and> is_Sphere small_b) \<and> bounding_sphere_collision big_a small_b \<and>
   bounding_radius big_a > dist_objs big_a small_b + bounding_radius small_b \<and>
   dist_objs big_a small_b = 1 \<and> bounding_radius big_a = 10 \<and> bounding_radius small_b = 1 \<and>
   test (\<lambda>p0 p1 t0 t1 t2. False) big_a small_b = Inr True \<and>
   mesh_collision (\<lambda>p0 p1 t0 t1 t2. False) big_a small_b = Inl IndexError"
proof -
  have r: "bounding_radius big_a = 10" "bounding_radius small_b = 1" "\<not> is_Sphere big_a"
    by (simp_all add: big_a_def small_b_def)
  have b: "bounding_sphere_collision big_a small_b"
    by (simp add: bounding_sphere_collision_def nested_dist r)
  from containment_phase [where a = big_a and b = small_b and lti = "\<lambda>p0 p1 t0 t1 t2. False"
      and va = "vertices big_a" and ia = "indices big_a" and vb = "vertices small_b"
      and ib = "indices small_b"] r b nested_dist nested_mesh_raises
  show ?thesis by simp
qed

section \<open>The mesh test\<close>

lemma tri_wf: "well_formed tri_a" "well_formed tri_b"
  by (simp_all add: well_formed_def tri_a_def tri_b_def)

lemma tri_triangles:
  "triangle_at tri_a 0 = Inr ((0, 0, 0), (4, 0, 0), (0, 0, 8))"
  "triangle_at tri_b 0 = Inr ((1, -4, 4), (1, 4, 4), (-4, 0, 4))"
  by (simp_all add: triangle_at_def tri_a_def tri_b_def getitem_def bindE_def vertex_at_def)

lemma tri_a_b: "mesh_collision lti tri_a tri_b = Inl IndexError"
  by (simp add: mesh_collision_def tri_a_def tri_b_def getitem_def bindE_def vertex_at_def)

lemma tri_b_a: "mesh_collision lti tri_b tri_a =
    Inr (lti (1, -4, 4) (1, 4, 4) (0, 0, 0) (4, 0, 0) (0, 4, 0) \<or>
         lti (1, -4, 4) (-4, 0, 4) (0, 0, 0) (4, 0, 0) (0, 4, 0) \<or>
         lti (1, 4, 4) (-4, 0, 4) (0, 0, 0) (4, 0, 0) (0, 4, 0) \<or>
         lti (0, 0, 0) (4, 0, 0) (1, -4, 4) (1, 4, 4) (-4, 0, 4) \<or>
         lti (0, 0, 0) (0, 4, 0) (1, -4, 4) (1, 4, 4) (-4, 0, 4) \<or>
         lti (4, 0, 0) (0, 4, 0) (1, -4, 4) (1, 4, 4) (-4, 0, 4))"
  by (simp add: mesh_collision_def tri_a_def tri_b_def getitem_def bindE_def vertex_at_def)

lemma tri_phases:
  "\<not> is_Sphere tri_a" "\<not> is_Sphere tri_b" "bounding_sphere_collision tri_a tri_b"
  "bounding_sphere_collision tri_b tri_a"
  "\<not> sphere_in_sphere_collision tri_a tri_b" "\<not> sphere_in_sphere_collision tri_b tri_a"
  by (simp_all add: tri_a_def tri_b_def bounding_sphere_collision_def sphere_in_sphere_collision_def
      dist_objs_def distance_def)

text \<open>
  C1.  The claim is that every triangle of B is built from B's own index buffer.  The
  inner loop reads the third index of B's triangle from the index buffer of A.  With
  \<open>tri_b\<close> as A and \<open>tri_a\<close> as B, the six segment tests are made against
  (0,0,0), (4,0,0), (0,4,0), which is not the triangle of \<open>tri_a\<close>; in the other
  order the index 3 of \<open>tri_a\<close> is used on the three vertices of \<open>tri_b\<close> and the
  read raises.  Both meshes are well formed.
\<close>

theorem mesh_collision_wrong_index:
  "well_formed tri_a \<and> well_formed tri_b \<and>
   triangle_at tri_a 0 = Inr ((0, 0, 0), (4, 0, 0), (0, 0, 8)) \<and>
   triangle_at tri_b 0 = Inr ((1, -4, 4), (1, 4, 4), (-4, 0, 4)) \<and>
   mesh_collision lti tri_b tri_a =
     Inr (lti (1, -4, 4) (1, 4, 4) (0, 0, 0) (4, 0, 0) (0, 4, 0) \<or>
          lti (1, -4, 4) (-4, 0, 4) (0, 0, 0) (4, 0, 0) (0, 4, 0) \<or>
          lti (1, 4, 4) (-4, 0, 4) (0, 0, 0) (4, 0, 0) (0, 4, 0) \<or>
          lti (0, 0, 0) (4, 0, 0) (1, -4, 4) (1, 4, 4) (-4, 0, 4) \<or>
          lti (0, 0, 0) (0, 4, 0) (1, -4, 4) (1, 4, 4) (-4, 0, 4) \<or>
          lti (4, 0, 0) (0, 4, 0) (1, -4, 4) (1, 4, 4) (-4, 0, 4)) \<and>
   mesh_collision lti tri_a tri_b = Inl IndexError"
  using tri_wf tri_triangles tri_a_b [of lti] tri_b_a [of lti] by simp

section \<open>Symmetry of the classification\<close>

lemma distance_commute: "distance p q = distance q p"
proof -
  obtain p0 p1 p2 p3 q0 q1 q2 q3 where "p = (p0, p1, p2, p3)" "q = (q0, q1, q2, q3)"
    by (metis surj_pair)
  then show ?thesis by (simp add: distance_def power2_commute)
qed

text \<open>
  The phases before the mesh test do not depend on the order of the two objects.
\<close>

lemma test_symmetric_before_mesh:
  "is_Sphere a \<and> is_Sphere b \<or> \<not> bounding_sphere_collision a b \<or> sphere_in_sphere_collision a b
   \<Longrightarrow> test lti a b = test lti b a"
  by (auto simp add: test_def bounding_sphere_collision_def sphere_in_sphere_collision_def
      dist_objs_def Let_def distance_commute [of "model_matrix_3 b"] add.commute)

text \<open>
  C2.  The claim is that the classification of (A, B) equals that of (B, A).  For the
  two well-formed meshes \<open>tri_a\<close> and \<open>tri_b\<close> the classification raises
  \<open>IndexError\<close> in one order and returns a boolean in the other, whatever the segment
  test answers.
\<close>

theorem test_not_symmetric:
  "well_formed tri_a \<and> well_formed tri_b \<and>
   test lti tri_a tri_b = Inl IndexError \<and>
   test lti tri_b tri_a \<noteq> Inl IndexError \<and> test lti tri_b tri_a \<noteq> test lti tri_a tri_b"
proof -
  have ab: "test lti tri_a tri_b = Inl IndexError"
    using tri_phases by (simp add: test_def tri_a_b)
  have ba: "test lti tri_b tri_a = mesh_collision lti tri_b tri_a"
    using tri_phases by (simp add: test_def)
  show ?thesis using tri_wf ab by (simp add: ba tri_b_a)
qed

section \<open>The loops of the detection pass\<close>

lemma check_inner_pass:
  "check_inner lti sc objs i js st =
     pass_over (test_pair lti sc) (map (\<lambda>j. (objs ! i, objs ! (i + j + 1))) js) st"
proof (induction js arbitrary: st)
  case Nil
  then show ?case by simp
next
  case (Cons j js)
  obtain ps tr where st: "st = (ps, tr)" by (cases st)
  show ?case unfolding st by (simp add: Let_def Cons.IH split: sum.splits)
qed

lemma pass_over_append:
  "pass_over t (xs @ ys) st =
     (case pass_over t xs st of (st', Some e) \<Rightarrow> (st', Some e) | (st', None) \<Rightarrow> pass_over t ys st')"
proof (induction xs arbitrary: st)
  case Nil
  then show ?case by simp
next
  case (Cons p xs)
  obtain ps tr where st: "st = (ps, tr)" by (cases st)
  show ?case unfolding st by (simp add: Cons.IH split: sum.splits)
qed

lemma check_outer_pass:
  "check_outer lti sc objs is st =
     pass_over (test_pair lti sc)
       (concat (map (\<lambda>i. map (\<lambda>j. (objs ! i, objs ! (i + j + 1))) [0..<length objs - i - 1]) is)) st"
proof (induction "is" arbitrary: st)
  case Nil
  then show ?case by simp
next
  case (Cons i "is")
  show ?case
    by (simp add: pass_over_append check_inner_pass Cons.IH split: prod.splits option.splits)
qed

lemma inner_range_aux: "map (\<lambda>j. f (Suc (i + j))) [0..<m] = map f [Suc i..<Suc i + m]"
  by (induction m) simp_all

lemma inner_range:
  "map (\<lambda>j. (objs ! i, objs ! (i + j + 1))) [0..<length objs - i - 1] =
   map (\<lambda>j. (objs ! i, objs ! j)) [Suc i..<length objs]"
proof (cases "Suc i \<le> length objs")
  case True
  then have e: "Suc i + (length objs - i - 1) = length objs" by simp
  have "map (\<lambda>j. (objs ! i, objs ! (i + j + 1))) [0..<length objs - i - 1] =
        map (\<lambda>j. (objs ! i, objs ! Suc (i + j))) [0..<length objs - i - 1]" by simp
  also have "\<dots> = map (\<lambda>j. (objs ! i, objs ! j)) [Suc i..<Suc i + (length objs - i - 1)]"
    by (rule inner_range_aux)
  finally show ?thesis unfolding e .
next
  case False
  then show ?thesis by simp
qed

lemma position_pairs_outer:
  "concat (map (\<lambda>i. map (\<lambda>j. (i, j)) [Suc i..<n]) [0..<n - 1]) = position_pairs n"
proof (cases n)
  case 0
  then show ?thesis by (simp add: position_pairs_def)
next
  case (Suc m)
  then show ?thesis by (simp add: position_pairs_def)
qed

lemma check_loops_roster_pairs:
  "check_outer lti sc objs [0..<length objs - 1] st =
     pass_over (test_pair lti sc) (roster_pairs objs) st"
proof -
  have "roster_pairs objs =
        concat (map (\<lambda>i. map (\<lambda>j. (objs ! i, objs ! j)) [Suc i..<length objs]) [0..<length objs - 1])"
    unfolding roster_pairs_def position_pairs_outer [symmetric]
    by (simp add: map_concat comp_def)
  then show ?thesis
    unfolding check_outer_pass inner_range by simp
qed




lemma check_eq_pass_over:
  "check lti sc d =
     (case pass_over (test_pair lti sc) (roster_pairs (objects d)) (pairs d, []) of
        ((ps, tr), Some e) \<Rightarrow> (d\<lparr>pairs := ps\<rparr>, tr, Inl e)
      | ((ps, tr), None) \<Rightarrow>
          (d\<lparr>pairs := ps\<rparr>, tr,
           case callback d of NotCallable \<Rightarrow> Inl TypeError
           | Callable \<Rightarrow> Inr [(d\<lparr>pairs := ps\<rparr>, ps)]))"
  unfolding check_def check_loops_roster_pairs
  by (simp add: Let_def split: prod.splits option.splits callback.splits)

subsection \<open>Properties of a sweep\<close>

lemma unordered_eq_iff: "unordered p = unordered q \<longleftrightarrow> q = p \<or> q = prod.swap p"
  by (cases p; cases q) (auto simp add: unordered_def doubleton_eq_iff)

lemma unordered_in_image:
  "unordered p \<in> unordered ` set ps \<longleftrightarrow> p \<in> set ps \<or> prod.swap p \<in> set ps"
proof -
  have "unordered p \<in> unordered ` set ps \<longleftrightarrow> (\<exists>q\<in>set ps. unordered p = unordered q)"
    by auto
  also have "\<dots> \<longleftrightarrow> p \<in> set ps \<or> prod.swap p \<in> set ps"
    unfolding unordered_eq_iff by auto
  finally show ?thesis .
qed

lemma unordered_eq_pair: "unordered p = unordered (a, b) \<longleftrightarrow> p = (a, b) \<or> p = (b, a)"
  by (cases p) (auto simp add: unordered_def doubleton_eq_iff)

lemma pass_over_shape:
  "\<exists>new. fst (pass_over t prs (ps, tr)) = (ps @ filter (\<lambda>p. t p = Inr True) new, tr @ new) \<and>
         subseq new prs \<and> (\<forall>p\<in>set new. p \<notin> set ps \<and> prod.swap p \<notin> set ps)"
proof (induction prs arbitrary: ps tr)
  case Nil
  show ?case by simp
next
  case (Cons p prs)
  show ?case
  proof (cases "p \<in> set ps \<or> prod.swap p \<in> set ps")
    case True
    from Cons.IH [of ps tr] obtain new where
      "fst (pass_over t prs (ps, tr)) = (ps @ filter (\<lambda>p. t p = Inr True) new, tr @ new)"
      "subseq new prs" "\<forall>p\<in>set new. p \<notin> set ps \<and> prod.swap p \<notin> set ps" by blast
    with True show ?thesis by (intro exI [of _ new]) (simp add: list_emb_Cons)
  next
    case False
    show ?thesis
    proof (cases "t p")
      case (Inl e)
      with False show ?thesis by (intro exI [of _ "[p]"]) simp
    next
      case (Inr res)
      define ps1 where "ps1 = (if res then ps @ [p] else ps)"
      from Cons.IH [of ps1 "tr @ [p]"] obtain new where n:
        "fst (pass_over t prs (ps1, tr @ [p])) =
           (ps1 @ filter (\<lambda>p. t p = Inr True) new, (tr @ [p]) @ new)"
        "subseq new prs" "\<forall>p\<in>set new. p \<notin> set ps1 \<and> prod.swap p \<notin> set ps1" by blast
      have step: "pass_over t (p # prs) (ps, tr) = pass_over t prs (ps1, tr @ [p])"
        using False Inr by (simp add: ps1_def)
      have "ps1 @ filter (\<lambda>p. t p = Inr True) new = ps @ filter (\<lambda>p. t p = Inr True) (p # new)"
        using Inr by (simp add: ps1_def)
      moreover have "\<forall>q\<in>set (p # new). q \<notin> set ps \<and> prod.swap q \<notin> set ps"
        using n(3) False by (auto simp add: ps1_def split: if_splits)
      ultimately show ?thesis
        using n(1,2) unfolding step by (intro exI [of _ "p # new"]) simp
    qed
  qed
qed

lemma pass_over_mono:
  "set ps \<subseteq> set (fst (fst (pass_over t prs (ps, tr))))"
proof -
  from pass_over_shape [of t prs ps tr] obtain new where
    "fst (pass_over t prs (ps, tr)) = (ps @ filter (\<lambda>p. t p = Inr True) new, tr @ new)" by blast
  then show ?thesis by simp
qed



lemma pass_over_inv:
  "distinct (map unordered ps) \<Longrightarrow>
   distinct (map unordered (fst (fst (pass_over t prs (ps, tr)))))"
proof (induction prs arbitrary: ps tr)
  case Nil
  then show ?case by simp
next
  case (Cons p prs)
  show ?case
  proof (cases "p \<in> set ps \<or> prod.swap p \<in> set ps")
    case True
    with Cons show ?thesis by simp
  next
    case False
    then have fresh: "distinct (map unordered (ps @ [p]))"
      using Cons.prems by (simp add: unordered_in_image)
    show ?thesis
    proof (cases "t p")
      case (Inl e)
      with False Cons.prems show ?thesis by simp
    next
      case (Inr res)
      with False Cons.prems fresh Cons.IH [of "ps @ [p]" "tr @ [p]"] Cons.IH [of ps "tr @ [p]"]
      show ?thesis by (cases res) simp_all
    qed
  qed
qed

lemma pass_over_idem:
  "pass_over t prs (ps, tr) = ((ps', tr @ new), r) \<Longrightarrow>
   \<exists>new2. pass_over t prs (ps', tr2) = ((ps', tr2 @ new2), r) \<and>
          set new2 \<subseteq> set new \<and> (\<forall>p\<in>set new2. t p \<noteq> Inr True)"
proof (induction prs arbitrary: ps tr tr2 new)
  case Nil
  then show ?case by simp
next
  case (Cons p prs)
  show ?case
  proof (cases "p \<in> set ps \<or> prod.swap p \<in> set ps")
    case True
    with Cons.prems have first: "pass_over t prs (ps, tr) = ((ps', tr @ new), r)" by simp
    from pass_over_mono [of ps t prs tr] first have "set ps \<subseteq> set ps'" by simp
    with True have "p \<in> set ps' \<or> prod.swap p \<in> set ps'" by blast
    then have "pass_over t (p # prs) (ps', tr2) = pass_over t prs (ps', tr2)" by simp
    with Cons.IH [OF first, of tr2] show ?thesis by simp
  next
    case False
    show ?thesis
    proof (cases "t p")
      case (Inl e)
      with False Cons.prems have "ps' = ps" "new = [p]" "r = Some e" by simp_all
      with False Inl show ?thesis by (intro exI [of _ "[p]"]) simp
    next
      case (Inr res)
      define ps1 where "ps1 = (if res then ps @ [p] else ps)"
      have first: "pass_over t prs (ps1, tr @ [p]) = ((ps', tr @ new), r)"
        using False Inr Cons.prems by (simp add: ps1_def)
      from pass_over_shape [of t prs ps1 "tr @ [p]"] first obtain new1 where
        "tr @ new = (tr @ [p]) @ new1" by auto
      then have new: "new = p # new1" by simp
      have first': "pass_over t prs (ps1, tr @ [p]) = ((ps', (tr @ [p]) @ new1), r)"
        using first unfolding new by simp
      from pass_over_mono [of ps1 t prs "tr @ [p]"] first have sub: "set ps1 \<subseteq> set ps'" by simp
      show ?thesis
      proof (cases "p \<in> set ps' \<or> prod.swap p \<in> set ps'")
        case True
        then have "pass_over t (p # prs) (ps', tr2) = pass_over t prs (ps', tr2)" by simp
        with Cons.IH [OF first', of tr2] show ?thesis unfolding new by auto
      next
        case False
        with sub have "\<not> res" by (auto simp add: ps1_def split: if_splits)
        with Inr have neg: "t p = Inr False" by simp
        with False have "pass_over t (p # prs) (ps', tr2) = pass_over t prs (ps', tr2 @ [p])"
          by simp
        moreover from Cons.IH [OF first', of "tr2 @ [p]"] obtain new2 where
          "pass_over t prs (ps', tr2 @ [p]) = ((ps', (tr2 @ [p]) @ new2), r)"
          "set new2 \<subseteq> set new1" "\<forall>p\<in>set new2. t p \<noteq> Inr True" by blast
        ultimately show ?thesis
          using neg unfolding new by (intro exI [of _ "p # new2"]) auto
      qed
    qed
  qed
qed

subsection \<open>The three spheres\<close>

lemma three_spheres_test:
  "test lti (three_spheres 10) (three_spheres 11) = Inr True"
  "test lti (three_spheres 10) (three_spheres 12) = Inr False"
  "test lti (three_spheres 11) (three_spheres 12) = Inr False"
  by (simp_all add: three_spheres_def sphere_at_test)

lemma roster_pairs_3: "roster_pairs [10, 11, 12] = [(10, 11), (10, 12), (11, 12)]"
  by (simp add: roster_pairs_def position_pairs_def upt_rec)

lemma check_roster3:
  "check lti three_spheres roster3 =
     (roster3\<lparr>pairs := [(10, 11)]\<rparr>, [(10, 11), (10, 12), (11, 12)],
      Inr [(roster3\<lparr>pairs := [(10, 11)]\<rparr>, [(10, 11)])])"
  by (simp add: check_eq_pass_over roster3_def roster_pairs_3 three_spheres_test)

lemma check_roster3_again:
  "check lti three_spheres (roster3\<lparr>pairs := [(10, 11)]\<rparr>) =
     (roster3\<lparr>pairs := [(10, 11)]\<rparr>, [(10, 12), (11, 12)],
      Inr [(roster3\<lparr>pairs := [(10, 11)]\<rparr>, [(10, 11)])])"
  by (simp add: check_eq_pass_over roster3_def roster_pairs_3 three_spheres_test)


section \<open>The detection pass\<close>




section \<open>The pair cache\<close>

lemma check_fields:
  "pairs (fst (check lti sc d)) =
     fst (fst (pass_over (test_pair lti sc) (roster_pairs (objects d)) (pairs d, [])))"
  "objects (fst (check lti sc d)) = objects d"
  "callback (fst (check lti sc d)) = callback d"
  by (simp_all add: check_eq_pass_over split: prod.splits option.splits)

lemma resolve_filter:
  assumes "pair_cache_inv (pairs d)"
  shows "resolve d a b = d\<lparr>pairs := filter (\<lambda>p. unordered p \<noteq> unordered (a, b)) (pairs d)\<rparr>"
proof -
  from assms have dist: "distinct (pairs d)"
    by (simp add: pair_cache_inv_def distinct_map)
  define ps1 where "ps1 = remove1 (a, b) (pairs d)"
  have res: "resolve d a b = d\<lparr>pairs := remove1 (b, a) ps1\<rparr>"
    by (simp add: resolve_def Let_def ps1_def remove1_idem)
  have d1: "distinct ps1" using dist by (simp add: ps1_def)
  have "remove1 (b, a) ps1 = filter (\<lambda>p. p \<noteq> (b, a)) (filter (\<lambda>p. p \<noteq> (a, b)) (pairs d))"
    using dist d1
    by (simp add: ps1_def distinct_remove1_removeAll removeAll_filter_not_eq eq_commute [of "(b, a)"]
        eq_commute [of "(a, b)"])
  also have "\<dots> = filter (\<lambda>p. p \<noteq> (a, b) \<and> p \<noteq> (b, a)) (pairs d)"
    by (simp add: conj_commute)
  also have "(\<lambda>p. p \<noteq> (a, b) \<and> p \<noteq> (b, a)) = (\<lambda>p. unordered p \<noteq> unordered (a, b))"
    by (rule ext) (simp add: unordered_eq_pair)
  finally show ?thesis
    by (simp add: res)
qed

lemma filter_inv: "pair_cache_inv ps \<Longrightarrow> pair_cache_inv (filter P ps)"
  by (simp add: pair_cache_inv_def distinct_map_filter)

lemma check_inv: "pair_cache_inv (pairs d) \<Longrightarrow> pair_cache_inv (pairs (fst (check lti sc d)))"
  by (simp add: check_fields pair_cache_inv_def pass_over_inv)

lemma reachable_inv: "reachable d \<Longrightarrow> pair_cache_inv (pairs d)"
proof (induction rule: reachable.induct)
  case (by_init objs cb d logged)
  then show ?case by (auto simp add: init_def pair_cache_inv_def)
next
  case (by_add_object d obj)
  then show ?case by (simp add: add_object_def)
next
  case (by_resolve d obj1 obj2)
  then show ?case by (simp add: resolve_filter filter_inv)
next
  case (by_check d lti sc)
  from by_check.IH show ?case by (rule check_inv)
qed

text \<open>
  C4.  In every detector state that construction and the operations can produce, no two
  cache entries stand for the same unordered pair.  Where that holds: \<open>add_object\<close>
  leaves the cache as it is; \<open>resolve\<close> removes exactly the entries that stand for
  the named pair, in either order, keeps the invariant, and changes nothing when the
  pair is absent; \<open>check\<close> keeps the invariant and only appends to the cache, and each
  pair it appends is a pair of the roster that was in the cache in neither order and
  that was classified positive.
\<close>

theorem pair_cache_invariant:
  "(reachable d \<longrightarrow> pair_cache_inv (pairs d)) \<and>
   (pair_cache_inv (pairs d) \<longrightarrow>
      add_object d obj = d\<lparr>objects := objects d @ [obj]\<rparr> \<and>
      pairs (add_object d obj) = pairs d \<and>
      resolve d a b = d\<lparr>pairs := filter (\<lambda>p. unordered p \<noteq> unordered (a, b)) (pairs d)\<rparr> \<and>
      pair_cache_inv (pairs (resolve d a b)) \<and>
      set (pairs (resolve d a b)) = set (pairs d) - {(a, b), (b, a)} \<and>
      ((a, b) \<notin> set (pairs d) \<and> (b, a) \<notin> set (pairs d) \<longrightarrow> resolve d a b = d) \<and>
      pair_cache_inv (pairs (fst (check lti sc d))) \<and>
      (\<exists>new. pairs (fst (check lti sc d)) = pairs d @ new \<and>
         (\<forall>p\<in>set new. p \<in> set (roster_pairs (objects d)) \<and>
            p \<notin> set (pairs d) \<and> prod.swap p \<notin> set (pairs d) \<and>
            test_pair lti sc p = Inr True)))"
proof (intro conjI impI)
  assume "reachable d"
  then show "pair_cache_inv (pairs d)" by (rule reachable_inv)
next
  assume inv: "pair_cache_inv (pairs d)"
  note rf = resolve_filter [OF inv, of a b]
  show "add_object d obj = d\<lparr>objects := objects d @ [obj]\<rparr>" by (simp add: add_object_def)
  show "pairs (add_object d obj) = pairs d" by (simp add: add_object_def)
  show "resolve d a b = d\<lparr>pairs := filter (\<lambda>p. unordered p \<noteq> unordered (a, b)) (pairs d)\<rparr>"
    by (rule rf)
  show "pair_cache_inv (pairs (resolve d a b))"
    using inv by (simp add: rf filter_inv)
  show "set (pairs (resolve d a b)) = set (pairs d) - {(a, b), (b, a)}"
    by (auto simp add: rf unordered_eq_pair)
  show "resolve d a b = d" if "(a, b) \<notin> set (pairs d) \<and> (b, a) \<notin> set (pairs d)"
    using that by (simp add: resolve_def)
  show "pair_cache_inv (pairs (fst (check lti sc d)))"
    using inv by (rule check_inv)
  from pass_over_shape [of "test_pair lti sc" "roster_pairs (objects d)" "pairs d" "[]"]
  obtain tr where
    shape: "fst (pass_over (test_pair lti sc) (roster_pairs (objects d)) (pairs d, [])) =
              (pairs d @ filter (\<lambda>p. test_pair lti sc p = Inr True) tr, [] @ tr)"
    and sub: "subseq tr (roster_pairs (objects d))"
    and fresh: "\<forall>p\<in>set tr. p \<notin> set (pairs d) \<and> prod.swap p \<notin> set (pairs d)" by blast
  from sub have "set tr \<subseteq> set (roster_pairs (objects d))" by (auto dest: list_emb_set)
  with fresh shape
  show "\<exists>new. pairs (fst (check lti sc d)) = pairs d @ new \<and>
         (\<forall>p\<in>set new. p \<in> set (roster_pairs (objects d)) \<and>
            p \<notin> set (pairs d) \<and> prod.swap p \<notin> set (pairs d) \<and>
            test_pair lti sc p = Inr True)"
    by (intro exI [of _ "filter (\<lambda>p. test_pair lti sc p = Inr True) tr"])
       (auto simp add: check_fields)
qed

text \<open>
  The detector of the three spheres after one pass: it is reachable, resolving the
  cached pair in the reverse order empties the cache, resolving an absent pair changes
  nothing.
\<close>

theorem pair_cache_invariant_witness:
  "reachable (roster3\<lparr>pairs := [(10, 11)]\<rparr>) \<and>
   pair_cache_inv (pairs (roster3\<lparr>pairs := [(10, 11)]\<rparr>)) \<and>
   resolve (roster3\<lparr>pairs := [(10, 11)]\<rparr>) 11 10 = roster3 \<and>
   resolve (roster3\<lparr>pairs := [(10, 11)]\<rparr>) 10 12 = roster3\<lparr>pairs := [(10, 11)]\<rparr> \<and>
   pairs (add_object (roster3\<lparr>pairs := [(10, 11)]\<rparr>) 13) = [(10, 11)] \<and>
   pairs (fst (check never three_spheres (roster3\<lparr>pairs := [(10, 11)]\<rparr>))) = [(10, 11)]"
proof -
  let ?d1 = "roster3\<lparr>pairs := [(10, 11)]\<rparr>"
  have "init [10, 11, 12] Callable = Inr (roster3, [])" by (simp add: init_def roster3_def)
  then have "reachable roster3" by (rule reachable.by_init)
  then have "reachable (fst (check never three_spheres roster3))" by (rule reachable.by_check)
  then have r: "reachable ?d1" by (simp add: check_roster3)
  from pair_cache_invariant [of ?d1 13 11 10 never three_spheres] r
  have inv: "pair_cache_inv (pairs ?d1)" by blast
  have absent: "(10, 12) \<notin> set (pairs ?d1) \<and> (12, 10) \<notin> set (pairs ?d1)" by simp
  from pair_cache_invariant [of ?d1 13 10 12 never three_spheres] inv absent
  have noop: "resolve ?d1 10 12 = ?d1" by blast
  from pair_cache_invariant [of ?d1 13 11 10 never three_spheres] inv
  have "resolve ?d1 11 10 = ?d1\<lparr>pairs := filter (\<lambda>p. unordered p \<noteq> unordered (11, 10)) (pairs ?d1)\<rparr>"
    by blast
  moreover have "unordered (10, 11) = unordered (11, 10)" by (auto simp add: unordered_def)
  ultimately have res: "resolve ?d1 11 10 = roster3" by (simp add: roster3_def)
  show ?thesis using r inv noop res by (simp add: add_object_def check_roster3_again)
qed

text \<open>
  C5.  For any detector state and scene, a second pass right after a first one leaves the
  detector as the first pass left it and ends as the first did, with the same callback
  invocation on the same cache (or the same exception); the second pass evaluates only
  pairs that the first evaluated and none of them is classified positive.
\<close>

theorem pass_idempotent:
  "(case check lti sc d of
      (d1, tr1, out1) \<Rightarrow>
        (case check lti sc d1 of
           (d2, tr2, out2) \<Rightarrow>
             d2 = d1 \<and> out2 = out1 \<and> set tr2 \<subseteq> set tr1 \<and>
             (\<forall>p\<in>set tr2. test_pair lti sc p \<noteq> Inr True)))"
proof -
  let ?t = "test_pair lti sc" and ?prs = "roster_pairs (objects d)"
  obtain ps tr r where first: "pass_over ?t ?prs (pairs d, []) = ((ps, [] @ tr), r)"
    by (metis append_Nil surj_pair)
  from pass_over_idem [OF first, of "[]"] obtain tr2 where
    second: "pass_over ?t ?prs (ps, []) = ((ps, tr2), r)"
    and sub: "set tr2 \<subseteq> set tr" and neg: "\<forall>p\<in>set tr2. ?t p \<noteq> Inr True" by auto
  define d1 where "d1 = d\<lparr>pairs := ps\<rparr>"
  define out where "out = (case r of Some e \<Rightarrow> Inl e
     | None \<Rightarrow> (case callback d of NotCallable \<Rightarrow> Inl TypeError | Callable \<Rightarrow> Inr [(d1, ps)]))"
  have c1: "check lti sc d = (d1, tr, out)"
    using first by (simp add: check_eq_pass_over d1_def out_def split: option.splits callback.splits)
  have c2: "check lti sc d1 = (d1, tr2, out)"
    using second by (simp add: check_eq_pass_over d1_def out_def split: option.splits callback.splits)
  show ?thesis using sub neg by (simp add: c1 c2)
qed

text \<open>
  The three spheres: the second pass skips the cached pair, evaluates the other two
  again and reports the same cache.
\<close>

theorem pass_idempotent_witness:
  "check never three_spheres roster3 =
     (roster3\<lparr>pairs := [(10, 11)]\<rparr>, [(10, 11), (10, 12), (11, 12)],
      Inr [(roster3\<lparr>pairs := [(10, 11)]\<rparr>, [(10, 11)])]) \<and>
   check never three_spheres (roster3\<lparr>pairs := [(10, 11)]\<rparr>) =
     (roster3\<lparr>pairs := [(10, 11)]\<rparr>, [(10, 12), (11, 12)],
      Inr [(roster3\<lparr>pairs := [(10, 11)]\<rparr>, [(10, 11)])]) \<and>
   test_pair never three_spheres (10, 12) \<noteq> Inr True \<and>
   test_pair never three_spheres (11, 12) \<noteq> Inr True"
proof -
  from pass_idempotent [of never three_spheres roster3]
  have "test_pair never three_spheres (10, 12) \<noteq> Inr True \<and>
        test_pair never three_spheres (11, 12) \<noteq> Inr True"
    by (simp add: check_roster3 check_roster3_again)
  then show ?thesis by (simp add: check_roster3 check_roster3_again)
qed

section \<open>Construction with a callback that is not callable\<close>




end
